theory Spec2Isabelle
  imports Main "HOL-Library.Sublist"
begin

section \<open>The REST client of cosmpy (\<^verbatim>\<open>cosmpy/common/rest_client.py\<close>)\<close>

text \<open>
  The class \<^verbatim>\<open>RestClient\<close> builds a URL from a base address, a path and an optional
  protobuf request, sends one GET or POST through a \<^verbatim>\<open>requests\<close> session and returns
  the body of the answer, or raises. The model below follows the class method by
  method. What the class takes from outside is a parameter of the model:
  \<^item> \<open>MessageToDict\<close>, the protobuf codec, is a function from the message type \<open>'msg\<close>
    to a Python dict;
  \<^item> \<open>http\<close>, the network behind the session, is a function from the request sent to
    either the message of a \<^verbatim>\<open>requests\<close> exception or a response;
  \<^item> \<open>isprintable\<close>, the table of printable characters in the Unicode database of
    the interpreter, which \<^verbatim>\<open>repr\<close> of a \<^verbatim>\<open>str\<close> asks about characters outside ASCII.
  The functions of the Python standard library that the class calls
  (\<^verbatim>\<open>dict.pop\<close>, \<^verbatim>\<open>urlencode\<close>, \<^verbatim>\<open>quote_plus\<close>, \<^verbatim>\<open>str\<close>) are written out.
\<close>

subsection \<open>Python values\<close>

text \<open>
  A \<open>string\<close> holds the UTF-8 bytes of a Python \<^verbatim>\<open>str\<close>, or the bytes of a Python
  \<^verbatim>\<open>bytes\<close>. The values are those \<^verbatim>\<open>MessageToDict\<close> returns. A dict is an association
  list in insertion order. A float is carried as the text \<^verbatim>\<open>str\<close> gives for it, which
  is all this class ever asks of a float.
\<close>

datatype pyval =
    PyStr string
  | PyInt int
  | PyFloat string
  | PyBool bool
  | PyNone
  | PyList "pyval list"
  | PyDict "(string \<times> pyval) list"

type_synonym pydict = "(string \<times> pyval) list"

datatype error =
    KeyError string
  | RuntimeError string
  | RequestException string

text \<open>\<^verbatim>\<open>sep.join(l)\<close>\<close>

fun join :: "string \<Rightarrow> string list \<Rightarrow> string" where
  "join sep [] = []"
| "join sep [x] = x"
| "join sep (x # y # ys) = x @ sep @ join sep (y # ys)"

text \<open>\<^verbatim>\<open>str\<close> of an \<^verbatim>\<open>int\<close>: decimal digits, with a minus sign below zero.\<close>

definition digit_char :: "nat \<Rightarrow> char" where
  "digit_char d = ''0123456789abcdef'' ! d"

function str_nat :: "nat \<Rightarrow> string" where
  "str_nat n = (if n < 10 then [digit_char n] else str_nat (n div 10) @ [digit_char (n mod 10)])"
  by pat_completeness auto
termination
  by (relation "measure id") auto

declare str_nat.simps [simp del]

definition str_int :: "int \<Rightarrow> string" where
  "str_int i = (if i < 0 then CHR ''-'' # str_nat (nat (- i)) else str_nat (nat i))"

text \<open>
  \<^verbatim>\<open>repr\<close> of a \<^verbatim>\<open>bytes\<close> and of a \<^verbatim>\<open>str\<close>: single quotes, unless the text has a single
  quote and no double quote; the quote in use and the backslash are escaped, tab,
  newline and carriage return are written \<^verbatim>\<open>\t\<close>, \<^verbatim>\<open>\n\<close>, \<^verbatim>\<open>\r\<close>, and the other
  control bytes \<^verbatim>\<open>\xNN\<close> in lower-case hexadecimal. In a \<^verbatim>\<open>bytes\<close> every byte from
  \<^verbatim>\<open>0x7f\<close> on is escaped.
\<close>

definition hex2 :: "nat \<Rightarrow> string" where
  "hex2 n = [digit_char (n div 16), digit_char (n mod 16)]"

definition repr_quote :: "string \<Rightarrow> char" where
  "repr_quote s =
     (if CHR 0x27 \<in> set s \<and> CHR 0x22 \<notin> set s then CHR 0x22 else CHR 0x27)"

definition repr_char :: "bool \<Rightarrow> char \<Rightarrow> char \<Rightarrow> string" where
  "repr_char is_bytes q c =
     (if c = q \<or> c = CHR 0x5C then [CHR 0x5C, c]
      else if c = CHR 0x09 then [CHR 0x5C, CHR ''t'']
      else if c = CHR 0x0A then [CHR 0x5C, CHR ''n'']
      else if c = CHR 0x0D then [CHR 0x5C, CHR ''r'']
      else if (of_char c :: nat) < 32 \<or> (of_char c :: nat) = 127
              \<or> (is_bytes \<and> (of_char c :: nat) > 127)
      then [CHR 0x5C, CHR ''x''] @ hex2 (of_char c)
      else [c])"

definition repr_bytes :: "string \<Rightarrow> string" where
  "repr_bytes b =
     (let q = repr_quote b in CHR ''b'' # q # concat (map (repr_char True q) b) @ [q])"

text \<open>
  In a \<^verbatim>\<open>str\<close> a character outside ASCII is kept when it is printable and escaped
  when it is not: \<^verbatim>\<open>\xNN\<close> up to \<^verbatim>\<open>U+00FF\<close>, \<^verbatim>\<open>\uNNNN\<close> up to \<^verbatim>\<open>U+FFFF\<close> and
  \<^verbatim>\<open>\UNNNNNNNN\<close> beyond. Which characters are printable is a table of the Unicode
  database of the interpreter (\<^verbatim>\<open>str.isprintable\<close>); it is the parameter
  \<open>isprintable\<close>, a predicate on code points, asked about code points from 128 on
  only. The text being UTF-8, a character outside ASCII is a lead byte and the one to
  three bytes after it: \<open>utf8_length\<close> is the number of its bytes and \<open>code_point\<close>
  its code point.
\<close>

definition hex_digits :: "nat \<Rightarrow> nat \<Rightarrow> string" where
  "hex_digits w n = map (\<lambda>i. digit_char ((n div 16 ^ i) mod 16)) (rev [0..<w])"

definition utf8_length :: "char \<Rightarrow> nat" where
  "utf8_length c =
     (if (of_char c :: nat) < 192 then 1
      else if (of_char c :: nat) < 224 then 2
      else if (of_char c :: nat) < 240 then 3
      else 4)"

fun code_point :: "string \<Rightarrow> nat" where
  "code_point [] = 0"
| "code_point [c] = of_char c"
| "code_point (c # cs) =
     foldl (\<lambda>a b. a * 64 + (of_char b :: nat) mod 64)
       ((of_char c :: nat) mod 2 ^ (7 - length (c # cs))) cs"

definition repr_escape :: "nat \<Rightarrow> string" where
  "repr_escape cp =
     (if cp \<le> 255 then [CHR 0x5C, CHR ''x''] @ hex_digits 2 cp
      else if cp \<le> 65535 then [CHR 0x5C, CHR ''u''] @ hex_digits 4 cp
      else [CHR 0x5C, CHR ''U''] @ hex_digits 8 cp)"

function repr_text :: "(nat \<Rightarrow> bool) \<Rightarrow> char \<Rightarrow> string \<Rightarrow> string" where
  "repr_text isprintable q [] = []"
| "repr_text isprintable q (c # cs) =
     (if (of_char c :: nat) < 128
      then repr_char False q c @ repr_text isprintable q cs
      else (if isprintable (code_point (c # take (utf8_length c - 1) cs))
            then c # take (utf8_length c - 1) cs
            else repr_escape (code_point (c # take (utf8_length c - 1) cs)))
           @ repr_text isprintable q (drop (utf8_length c - 1) cs))"
  by pat_completeness auto
termination
  by (relation "measure (\<lambda>(p, q, s). length s)") auto

definition repr_str :: "(nat \<Rightarrow> bool) \<Rightarrow> string \<Rightarrow> string" where
  "repr_str isprintable s =
     (let q = repr_quote s in q # repr_text isprintable q s @ [q])"

text \<open>\<^verbatim>\<open>repr\<close> and \<^verbatim>\<open>str\<close> of a value; they differ on a \<^verbatim>\<open>str\<close> only.\<close>

fun py_repr :: "(nat \<Rightarrow> bool) \<Rightarrow> pyval \<Rightarrow> string" where
  "py_repr isprintable (PyStr s) = repr_str isprintable s"
| "py_repr isprintable (PyInt i) = str_int i"
| "py_repr isprintable (PyFloat s) = s"
| "py_repr isprintable (PyBool b) = (if b then ''True'' else ''False'')"
| "py_repr isprintable PyNone = ''None''"
| "py_repr isprintable (PyList xs) =
     ''['' @ join '', '' (map (py_repr isprintable) xs) @ '']''"
| "py_repr isprintable (PyDict kvs) =
     ''{''
     @ join '', ''
         (map (\<lambda>(k, v). repr_str isprintable k @ '': '' @ py_repr isprintable v) kvs)
     @ ''}''"

fun py_str :: "(nat \<Rightarrow> bool) \<Rightarrow> pyval \<Rightarrow> string" where
  "py_str isprintable (PyStr s) = s"
| "py_str isprintable v = py_repr isprintable v"

subsection \<open>\<^verbatim>\<open>urllib.parse\<close>: \<^verbatim>\<open>quote\<close>, \<^verbatim>\<open>quote_plus\<close> and \<^verbatim>\<open>urlencode\<close> with \<^verbatim>\<open>doseq=True\<close>\<close>

definition always_safe :: "char \<Rightarrow> bool" where
  "always_safe c =
     (c \<in> set (''ABCDEFGHIJKLMNOPQRSTUVWXYZ'' @ ''abcdefghijklmnopqrstuvwxyz''
               @ ''0123456789'' @ ''_.-~''))"

text \<open>A byte that is not safe becomes \<^verbatim>\<open>%XX\<close>, in upper-case hexadecimal.\<close>

definition percent :: "char \<Rightarrow> string" where
  "percent c =
     [CHR ''%'', ''0123456789ABCDEF'' ! ((of_char c :: nat) div 16),
      ''0123456789ABCDEF'' ! ((of_char c :: nat) mod 16)]"

definition quote :: "string \<Rightarrow> string \<Rightarrow> string" where
  "quote string safe =
     concat (map (\<lambda>c. if always_safe c \<or> c \<in> set safe then [c] else percent c) string)"

definition quote_plus :: "string \<Rightarrow> string" where
  "quote_plus string =
     (if CHR '' '' \<notin> set string then quote string []
      else map (\<lambda>c. if c = CHR '' '' then CHR ''+'' else c) (quote string '' ''))"

text \<open>
  The body of the loop of \<^verbatim>\<open>urlencode\<close> for one item \<open>(k, v)\<close> of the dict: the
  entries it appends to the list \<^verbatim>\<open>l\<close>. A \<^verbatim>\<open>str\<close> gives one entry. Any other value
  is asked for its \<^verbatim>\<open>len\<close>: an int, a float, a bool and \<^verbatim>\<open>None\<close> have none and
  give one entry, with \<^verbatim>\<open>str(v)\<close>; a list gives one entry for each element, and a
  dict one entry for each of its keys.
\<close>

fun urlencode_item :: "(nat \<Rightarrow> bool) \<Rightarrow> string \<times> pyval \<Rightarrow> string list" where
  "urlencode_item isprintable (k, PyStr s) = [quote_plus k @ ''='' @ quote_plus s]"
| "urlencode_item isprintable (k, PyList elts) =
     map (\<lambda>elt. quote_plus k @ ''='' @ quote_plus (py_str isprintable elt)) elts"
| "urlencode_item isprintable (k, PyDict kvs) =
     map (\<lambda>elt. quote_plus k @ ''='' @ quote_plus elt) (map fst kvs)"
| "urlencode_item isprintable (k, v) = [quote_plus k @ ''='' @ quote_plus (py_str isprintable v)]"

definition urlencode :: "(nat \<Rightarrow> bool) \<Rightarrow> pydict \<Rightarrow> string" where
  "urlencode isprintable query = join ''&'' (concat (map (urlencode_item isprintable) query))"

subsection \<open>\<^verbatim>\<open>dict.pop\<close>\<close>

text \<open>\<^verbatim>\<open>d.pop(key)\<close> with no default: \<^verbatim>\<open>KeyError(key)\<close> when the key is absent.\<close>

definition dict_pop :: "pydict \<Rightarrow> string \<Rightarrow> error + pydict" where
  "dict_pop d key =
     (case map_of d key of
        None \<Rightarrow> Inl (KeyError key)
      | Some _ \<Rightarrow> Inr (filter (\<lambda>(k, v). k \<noteq> key) d))"

subsection \<open>The \<^verbatim>\<open>requests\<close> session\<close>

text \<open>
  A session has an identity, given when \<^verbatim>\<open>requests.session()\<close> creates it; it records
  the requests sent through it, in order, and whether \<^verbatim>\<open>close\<close> was called.
  \<open>req_json\<close> and \<open>req_headers\<close> are the \<^verbatim>\<open>json\<close> and \<^verbatim>\<open>headers\<close> arguments of the call;
  \<^verbatim>\<open>requests\<close> serialises the former into the body.
\<close>

datatype http_method = GET | POST

record http_request =
  req_method :: http_method
  req_url :: string
  req_json :: "pydict option"
  req_headers :: "(string \<times> string) list"

record Response =
  status_code :: int
  content :: string

record Session =
  session_id :: nat
  sent :: "http_request list"
  closed :: bool

type_synonym transport = "http_request \<Rightarrow> string + Response"

definition requests_session :: "nat \<Rightarrow> Session \<times> nat" where
  "requests_session fresh = (\<lparr>session_id = fresh, sent = [], closed = False\<rparr>, Suc fresh)"

definition session_request ::
  "transport \<Rightarrow> Session \<Rightarrow> http_request \<Rightarrow> (error + Response) \<times> Session" where
  "session_request http s rq =
     (case http rq of Inl m \<Rightarrow> Inl (RequestException m) | Inr response \<Rightarrow> Inr response,
      s\<lparr>sent := sent s @ [rq]\<rparr>)"

definition session_get :: "transport \<Rightarrow> Session \<Rightarrow> string \<Rightarrow> (error + Response) \<times> Session" where
  "session_get http s url =
     session_request http s
       \<lparr>req_method = GET, req_url = url, req_json = None, req_headers = []\<rparr>"

definition session_post ::
  "transport \<Rightarrow> Session \<Rightarrow> string \<Rightarrow> pydict \<Rightarrow> (string \<times> string) list
     \<Rightarrow> (error + Response) \<times> Session" where
  "session_post http s url json headers =
     session_request http s
       \<lparr>req_method = POST, req_url = url, req_json = Some json, req_headers = headers\<rparr>"

definition session_close :: "Session \<Rightarrow> Session" where
  "session_close s = s\<lparr>closed := True\<rparr>"

subsection \<open>\<^verbatim>\<open>RestClient\<close>\<close>

record RestClient =
  session :: Session
  rest_address :: string

text \<open>\<^verbatim>\<open>__init__\<close>; \<open>fresh\<close> is the identity the next new session gets.\<close>

definition init :: "nat \<Rightarrow> string \<Rightarrow> RestClient \<times> nat" where
  "init fresh address =
     (case requests_session fresh of
        (s, fresh') \<Rightarrow> (\<lparr>session = s, rest_address = address\<rparr>, fresh'))"

text \<open>The loop \<^verbatim>\<open>for param in used_params: json_request.pop(param)\<close>.\<close>

fun pop_params :: "string list \<Rightarrow> pydict \<Rightarrow> error + pydict" where
  "pop_params [] json_request = Inr json_request"
| "pop_params (param # rest) json_request =
     (case dict_pop json_request param of
        Inl e \<Rightarrow> Inl e
      | Inr json_request' \<Rightarrow> pop_params rest json_request')"

text \<open>\<^verbatim>\<open>if used_params is not None:\<close> the loop (lines 65 to 67).\<close>

definition remove_used_params :: "string list option \<Rightarrow> pydict \<Rightarrow> error + pydict" where
  "remove_used_params used_params json_request =
     (case used_params of
        None \<Rightarrow> Inr json_request
      | Some params \<Rightarrow> pop_params params json_request)"

text \<open>The first part of \<^verbatim>\<open>get\<close>, up to the URL (lines 59 to 74).\<close>

definition get_url ::
  "(nat \<Rightarrow> bool) \<Rightarrow> ('msg \<Rightarrow> pydict) \<Rightarrow> RestClient \<Rightarrow> string \<Rightarrow> 'msg option \<Rightarrow> string list option
     \<Rightarrow> error + string" where
  "get_url isprintable MessageToDict self url_base_path request used_params =
     (case request of
        None \<Rightarrow> Inr (rest_address self @ url_base_path)
      | Some req \<Rightarrow>
          (case remove_used_params used_params (MessageToDict req) of
             Inl e \<Rightarrow> Inl e
           | Inr json_request \<Rightarrow>
               (let url_encoded_request = urlencode isprintable json_request in
                if length url_encoded_request = 0
                then Inr (rest_address self @ url_base_path)
                else Inr (rest_address self @ url_base_path @ ''?'' @ url_encoded_request))))"

definition get_error_message :: "Response \<Rightarrow> string" where
  "get_error_message response =
     ''Error when sending a GET request.'' @ [CHR 0x0A] @ '' Response: ''
     @ str_int (status_code response) @ '', '' @ repr_bytes (content response) @ '')''"

text \<open>
  \<^verbatim>\<open>get\<close>: the result, or the exception raised, and the client afterwards. An
  exception of the loop over \<^verbatim>\<open>used_params\<close> leaves before anything is sent.
\<close>

definition get ::
  "(nat \<Rightarrow> bool) \<Rightarrow> ('msg \<Rightarrow> pydict) \<Rightarrow> transport \<Rightarrow> RestClient \<Rightarrow> string \<Rightarrow> 'msg option \<Rightarrow> string list option
     \<Rightarrow> (error + string) \<times> RestClient" where
  "get isprintable MessageToDict http self url_base_path request used_params =
     (case get_url isprintable MessageToDict self url_base_path request used_params of
        Inl e \<Rightarrow> (Inl e, self)
      | Inr url \<Rightarrow>
          (case session_get http (session self) url of
             (Inl e, s) \<Rightarrow> (Inl e, self\<lparr>session := s\<rparr>)
           | (Inr response, s) \<Rightarrow>
               (if status_code response \<noteq> 200
                then Inl (RuntimeError (get_error_message response))
                else Inr (content response),
                self\<lparr>session := s\<rparr>)))"

definition post_headers :: "(string \<times> string) list" where
  "post_headers = [(''Content-type'', ''application/json''), (''Accept'', ''application/json'')]"

definition post_error_message :: "(nat \<Rightarrow> bool) \<Rightarrow> pydict \<Rightarrow> Response \<Rightarrow> string" where
  "post_error_message isprintable json_request response =
     ''Error when sending a POST request.'' @ [CHR 0x0A] @ '' Request: ''
     @ py_str isprintable (PyDict json_request) @ [CHR 0x0A] @ '' Response: ''
     @ str_int (status_code response) @ '', '' @ repr_bytes (content response) @ '')''"

definition post ::
  "(nat \<Rightarrow> bool) \<Rightarrow> ('msg \<Rightarrow> pydict) \<Rightarrow> transport \<Rightarrow> RestClient \<Rightarrow> string \<Rightarrow> 'msg
     \<Rightarrow> (error + string) \<times> RestClient" where
  "post isprintable MessageToDict http self url_base_path request =
     (let json_request = MessageToDict request;
          headers = post_headers
      in case session_post http (session self) (rest_address self @ url_base_path)
                json_request headers of
           (Inl e, s) \<Rightarrow> (Inl e, self\<lparr>session := s\<rparr>)
         | (Inr response, s) \<Rightarrow>
             (if status_code response \<noteq> 200
              then Inl (RuntimeError (post_error_message isprintable json_request response))
              else Inr (content response),
              self\<lparr>session := s\<rparr>))"

text \<open>\<^verbatim>\<open>__del__\<close>\<close>

definition del :: "RestClient \<Rightarrow> RestClient" where
  "del self = self\<lparr>session := session_close (session self)\<rparr>"

subsection \<open>A client in use\<close>

text \<open>
  One call of a method, with the network as it answers at that moment, and a sequence
  of such calls on a client. The result of a call is dropped here; only the client
  is followed.
\<close>

datatype 'msg method_call =
    CallGet transport string "'msg option" "string list option"
  | CallPost transport string 'msg
  | CallDel

fun call ::
  "(nat \<Rightarrow> bool) \<Rightarrow> ('msg \<Rightarrow> pydict) \<Rightarrow> RestClient \<Rightarrow> 'msg method_call
     \<Rightarrow> RestClient" where
  "call isprintable MessageToDict self (CallGet http url_base_path request used_params) =
     snd (get isprintable MessageToDict http self url_base_path request used_params)"
| "call isprintable MessageToDict self (CallPost http url_base_path request) =
     snd (post isprintable MessageToDict http self url_base_path request)"
| "call isprintable MessageToDict self CallDel = del self"

definition calls ::
  "(nat \<Rightarrow> bool) \<Rightarrow> ('msg \<Rightarrow> pydict) \<Rightarrow> RestClient \<Rightarrow> 'msg method_call list
     \<Rightarrow> RestClient" where
  "calls isprintable MessageToDict self cs = foldl (call isprintable MessageToDict) self cs"

subsection \<open>Reading a query string\<close>

text \<open>
  The specification speaks of the keys and of the \<open>key=value\<close> pairs of a query string.
  They are read off the string as a server does: cut at every \<open>&\<close>, then each piece
  at its first \<open>=\<close>. The empty string has no pair.
\<close>

fun split_on :: "char \<Rightarrow> string \<Rightarrow> string list" where
  "split_on c [] = [[]]"
| "split_on c (x # xs) =
     (if x = c then [] # split_on c xs
      else (case split_on c xs of [] \<Rightarrow> [[x]] | y # ys \<Rightarrow> (x # y) # ys))"

definition query_pairs :: "string \<Rightarrow> (string \<times> string) list" where
  "query_pairs qs =
     (if qs = [] then []
      else map (\<lambda>p. (takeWhile (\<lambda>c. c \<noteq> CHR ''='') p,
                      drop 1 (dropWhile (\<lambda>c. c \<noteq> CHR ''='') p)))
             (split_on CHR ''&'' qs))"

text \<open>
  The pieces are then decoded as \<^verbatim>\<open>urllib.parse.unquote_plus\<close> does on bytes: a plus
  sign is a space, and \<^verbatim>\<open>%XX\<close> with two hexadecimal digits is the byte \<^verbatim>\<open>XX\<close>.
\<close>

definition hex_val :: "char \<Rightarrow> nat" where
  "hex_val c =
     (let n = (of_char c :: nat) in
      if 48 \<le> n \<and> n \<le> 57 then n - 48
      else if 65 \<le> n \<and> n \<le> 70 then n - 55
      else if 97 \<le> n \<and> n \<le> 102 then n - 87
      else 0)"

definition is_hex :: "char \<Rightarrow> bool" where
  "is_hex c = (c \<in> set ''0123456789ABCDEFabcdef'')"

fun unquote :: "string \<Rightarrow> string" where
  "unquote [] = []"
| "unquote (c # cs) =
     (if c = CHR ''%''
      then (case cs of
              a # b # rest \<Rightarrow>
                if is_hex a \<and> is_hex b
                then char_of (16 * hex_val a + hex_val b) # unquote rest
                else c # unquote cs
            | _ \<Rightarrow> c # unquote cs)
      else c # unquote cs)"

definition unquote_plus :: "string \<Rightarrow> string" where
  "unquote_plus s = unquote (map (\<lambda>c. if c = CHR ''+'' then CHR '' '' else c) s)"

definition decoded_pairs :: "string \<Rightarrow> (string \<times> string) list" where
  "decoded_pairs qs = map (\<lambda>(k, v). (unquote_plus k, unquote_plus v)) (query_pairs qs)"

text \<open>
  The specification's expansion of a field: the values a field stands for in the
  query string, one for a scalar and one for each element of a sequence.
\<close>

fun doseq_values :: "(nat \<Rightarrow> bool) \<Rightarrow> pyval \<Rightarrow> string list" where
  "doseq_values isprintable (PyStr s) = [s]"
| "doseq_values isprintable (PyList elts) = map (py_str isprintable) elts"
| "doseq_values isprintable (PyDict kvs) = map fst kvs"
| "doseq_values isprintable v = [py_str isprintable v]"

definition expansion :: "(nat \<Rightarrow> bool) \<Rightarrow> pydict \<Rightarrow> (string \<times> string) list" where
  "expansion isprintable d = concat (map (\<lambda>(k, v). map (\<lambda>e. (k, e)) (doseq_values isprintable v)) d)"

text \<open>The same pairs as they stand in the query string, key and value quoted.\<close>

definition doseq_pairs :: "(nat \<Rightarrow> bool) \<Rightarrow> pydict \<Rightarrow> (string \<times> string) list" where
  "doseq_pairs isprintable d =
     concat (map (\<lambda>(k, v). map (\<lambda>e. (quote_plus k, quote_plus e)) (doseq_values isprintable v)) d)"

subsection \<open>Example inputs\<close>

text \<open>
  A client of a local node, a network that answers every request with a given status
  and body, and some encoded requests: a transaction to broadcast, a request with a
  list-valued field, the same with the list empty, and two requests whose pagination
  message is set but empty (\<^verbatim>\<open>MessageToDict\<close> gives \<^verbatim>\<open>{}\<close> for it). The
  examples hold ASCII text only, for which the table of printable characters is not
  asked; \<open>ascii_table\<close> stands for it.
\<close>

definition ascii_table :: "nat \<Rightarrow> bool" where
  "ascii_table cp = False"

definition example_client :: RestClient where
  "example_client = fst (init 0 ''http://localhost:1317'')"

definition answer :: "int \<Rightarrow> string \<Rightarrow> transport" where
  "answer status body = (\<lambda>rq. Inr \<lparr>status_code = status, content = body\<rparr>)"

definition tx_request :: pydict where
  "tx_request = [(''tx_bytes'', PyStr ''AB==''), (''mode'', PyStr ''BROADCAST_MODE_SYNC'')]"

definition tags_request :: pydict where
  "tags_request = [(''id'', PyStr ''7''), (''tags'', PyList [PyStr ''a'', PyStr ''b''])]"

definition empty_tags_request :: pydict where
  "empty_tags_request = [(''id'', PyStr ''7''), (''tags'', PyList [])]"

definition empty_page_request :: pydict where
  "empty_page_request = [(''pagination'', PyDict [])]"

definition balances_request :: pydict where
  "balances_request =
     [(''address'', PyStr ''fetch1xyz''), (''denom'', PyStr ''atestfet''),
      (''pagination'', PyDict [])]"

section \<open>Properties\<close>

subsection \<open>Removing the used parameters\<close>

lemma dict_pop_if:
  "dict_pop d k =
     (if k \<in> fst ` set d then Inr (filter (\<lambda>(k', v). k' \<noteq> k) d) else Inl (KeyError k))"
proof (cases "map_of d k")
  case None
  then have "k \<notin> fst ` set d" by (simp add: map_of_eq_None_iff)
  with None show ?thesis by (simp add: dict_pop_def)
next
  case (Some v)
  then have "k \<in> fst ` set d" by (metis map_of_eq_None_iff option.distinct(1))
  with Some show ?thesis by (simp add: dict_pop_def)
qed

lemma dict_pop_Inr:
  "dict_pop d k = Inr d' \<longleftrightarrow> k \<in> fst ` set d \<and> d' = filter (\<lambda>(k', v). k' \<noteq> k) d"
  by (auto simp: dict_pop_if)

lemma dict_pop_Inl:
  "dict_pop d k = Inl e \<longleftrightarrow> k \<notin> fst ` set d \<and> e = KeyError k"
  by (auto simp: dict_pop_if)

lemma keys_filter_pop:
  "fst ` set (filter (\<lambda>(k', v). k' \<noteq> k) d) = fst ` set d - {k}"
  by force

text \<open>
  The loop goes through exactly when the parameters are pairwise different keys of
  the dict, and then it leaves the other items, in their order.
\<close>

lemma pop_params_Inr:
  "pop_params ps d = Inr d' \<longleftrightarrow>
     distinct ps \<and> set ps \<subseteq> fst ` set d \<and> d' = filter (\<lambda>(k, v). k \<notin> set ps) d"
proof (induction ps arbitrary: d)
  case Nil
  show ?case by auto
next
  case (Cons p ps)
  show ?case
  proof (cases "dict_pop d p")
    case (Inl e)
    then have "p \<notin> fst ` set d" by (simp add: dict_pop_Inl)
    with Inl show ?thesis by auto
  next
    case (Inr d1)
    then have p: "p \<in> fst ` set d" and d1: "d1 = filter (\<lambda>(k', v). k' \<noteq> p) d"
      by (simp_all add: dict_pop_Inr)
    have f: "filter (\<lambda>(k, v). k \<notin> set ps) d1 = filter (\<lambda>(k, v). k \<notin> set (p # ps)) d"
      unfolding d1 by (induction d) auto
    have k: "fst ` set d1 = fst ` set d - {p}"
      unfolding d1 by (rule keys_filter_pop)
    show ?thesis
      using Inr p by (auto simp: Cons.IH f k)
  qed
qed

lemma pop_params_Inl:
  "pop_params ps d = Inl e \<Longrightarrow> \<exists>k \<in> set ps. e = KeyError k"
proof (induction ps arbitrary: d)
  case Nil
  then show ?case by simp
next
  case (Cons p ps)
  then show ?case
    by (cases "dict_pop d p") (auto simp: dict_pop_Inl)
qed

lemma pop_params_fails:
  assumes "\<not> (distinct ps \<and> set ps \<subseteq> fst ` set d)"
  shows "\<exists>k \<in> set ps. pop_params ps d = Inl (KeyError k)"
proof (cases "pop_params ps d")
  case (Inl e)
  then show ?thesis using pop_params_Inl by blast
next
  case (Inr d')
  then show ?thesis using assms by (simp add: pop_params_Inr)
qed

lemma pop_params_append:
  "pop_params (ps @ qs) d =
     (case pop_params ps d of Inl e \<Rightarrow> Inl e | Inr d' \<Rightarrow> pop_params qs d')"
  by (induction ps arbitrary: d) (auto split: sum.splits)

subsection \<open>The query string\<close>


lemma split_on_nonempty: "split_on c s \<noteq> []"
  by (induction s) (auto split: list.splits)

lemma split_on_notin: "c \<notin> set x \<Longrightarrow> split_on c x = [x]"
  by (induction x) auto

lemma split_on_append:
  "c \<notin> set x \<Longrightarrow> split_on c (x @ c # rest) = x # split_on c rest"
  by (induction x) auto

lemma split_on_join:
  "l \<noteq> [] \<Longrightarrow> \<forall>x \<in> set l. c \<notin> set x \<Longrightarrow> split_on c (join [c] l) = l"
proof (induction "[c]" l rule: join.induct)
  case 1
  then show ?case by simp
next
  case (2 x)
  then show ?case by (simp add: split_on_notin)
next
  case (3 x y ys)
  then show ?case by (simp add: split_on_append)
qed

lemma join_eq_Nil: "\<forall>x \<in> set l. x \<noteq> [] \<Longrightarrow> join sep l = [] \<longleftrightarrow> l = []"
  by (induction sep l rule: join.induct) auto

lemma hex_upper_nth:
  "i < 16 \<Longrightarrow> ''0123456789ABCDEF'' ! i \<in> set ''0123456789ABCDEF''"
  by (rule nth_mem) simp

lemma of_char_lt_256: "(of_char c :: nat) < 256"
  by (cases c) (simp add: of_char_def)

lemma percent_chars: "x \<in> set (percent c) \<Longrightarrow> x \<in> set ''%0123456789ABCDEF''"
proof -
  assume a: "x \<in> set (percent c)"
  have 1: "(of_char c :: nat) div 16 < 16"
    by (rule less_mult_imp_div_less) (use of_char_lt_256 [of c] in simp)
  have 2: "(of_char c :: nat) mod 16 < 16" by simp
  from a have "x = CHR ''%'' \<or> x = ''0123456789ABCDEF'' ! ((of_char c :: nat) div 16)
      \<or> x = ''0123456789ABCDEF'' ! ((of_char c :: nat) mod 16)"
    by (auto simp: percent_def)
  with hex_upper_nth [OF 1] hex_upper_nth [OF 2] show ?thesis
    by (metis list.set_intros(1,2))
qed

lemma quote_chars:
  assumes "x \<in> set (quote s safe)"
  shows "always_safe x \<or> x \<in> set safe \<or> x \<in> set ''%0123456789ABCDEF''"
proof -
  from assms obtain c
    where x: "x \<in> set (if always_safe c \<or> c \<in> set safe then [c] else percent c)"
    unfolding quote_def set_concat set_map by blast
  show ?thesis
  proof (cases "always_safe c \<or> c \<in> set safe")
    case True
    with x have "x = c" by simp
    with True show ?thesis by blast
  next
    case False
    with x have "x \<in> set (percent c)" by simp
    then show ?thesis by (blast dest: percent_chars)
  qed
qed

lemma quote_plus_chars:
  assumes "x \<in> set (quote_plus s)"
  shows "always_safe x \<or> x \<in> set ''+%0123456789ABCDEF''"
proof -
  have sub: "\<And>y. y \<in> set ''%0123456789ABCDEF'' \<Longrightarrow> y \<in> set ''+%0123456789ABCDEF''"
    by (rule set_subset_Cons [THEN subsetD])
  have plus: "CHR ''+'' \<in> set ''+%0123456789ABCDEF''"
    by (rule list.set_intros(1))
  show ?thesis
  proof (cases "CHR '' '' \<in> set s")
    case False
    then have "quote_plus s = quote s []" unfolding quote_plus_def by (rule if_P)
    with assms have "x \<in> set (quote s [])" by (simp only:)
    from quote_chars [OF this] have "always_safe x \<or> x \<in> set ''%0123456789ABCDEF''"
      by (simp only: list.set(1) empty_iff simp_thms)
    with sub show ?thesis by blast
  next
    case True
    then have "quote_plus s = map (\<lambda>c. if c = CHR '' '' then CHR ''+'' else c) (quote s '' '')"
      unfolding quote_plus_def by (simp only: not_True_eq_False if_False)
    with assms obtain y where y: "y \<in> set (quote s '' '')"
      and x: "x = (if y = CHR '' '' then CHR ''+'' else y)"
      by (simp only: set_map) blast
    show ?thesis
    proof (cases "y = CHR '' ''")
      case True
      with x have "x = CHR ''+''" by simp
      with plus show ?thesis by blast
    next
      case False
      with x have xy: "x = y" by simp
      from quote_chars [OF y] False
      have "always_safe y \<or> y \<in> set ''%0123456789ABCDEF''"
        by (simp only: list.set(1) list.set(2) [of _ "[]"] empty_iff insert_iff simp_thms)
      with sub xy show ?thesis by blast
    qed
  qed
qed

lemma amp_not_quoted:
  "\<not> always_safe CHR ''&''" "CHR ''&'' \<notin> set ''+%0123456789ABCDEF''"
  by (simp_all add: always_safe_def)

lemma eq_not_quoted:
  "\<not> always_safe CHR ''=''" "CHR ''='' \<notin> set ''+%0123456789ABCDEF''"
  by (simp_all add: always_safe_def)

lemma quote_plus_no_amp: "CHR ''&'' \<notin> set (quote_plus s)"
  using quote_plus_chars [of "CHR ''&''" s] amp_not_quoted by blast

lemma quote_plus_no_eq: "CHR ''='' \<notin> set (quote_plus s)"
  using quote_plus_chars [of "CHR ''=''" s] eq_not_quoted by blast


lemma urlencode_item_doseq:
  "urlencode_item isprintable (k, v) = map (\<lambda>e. quote_plus k @ ''='' @ quote_plus e) (doseq_values isprintable v)"
  by (cases v) (simp_all add: comp_def)

lemma doseq_values_Nil: "doseq_values isprintable v = [] \<longleftrightarrow> v = PyList [] \<or> v = PyDict []"
  by (cases v) simp_all

lemma urlencode_entries:
  "concat (map (urlencode_item isprintable) d) =
     map (\<lambda>(k, e). k @ ''='' @ e) (doseq_pairs isprintable d)"
  unfolding doseq_pairs_def
  by (induction d) (auto simp: urlencode_item_doseq comp_def)

lemma doseq_pairs_no_sep:
  assumes "(k, e) \<in> set (doseq_pairs isprintable d)"
  shows "CHR ''='' \<notin> set k" "CHR ''&'' \<notin> set k" "CHR ''&'' \<notin> set e"
  using assms quote_plus_no_eq quote_plus_no_amp
  unfolding doseq_pairs_def by auto

lemma read_pair:
  assumes "CHR ''='' \<notin> set k"
  shows "takeWhile (\<lambda>c. c \<noteq> CHR ''='') (k @ CHR ''='' # e) = k"
    and "drop (Suc 0) (dropWhile (\<lambda>c. c \<noteq> CHR ''='') (k @ CHR ''='' # e)) = e"
proof -
  from assms have k: "\<And>x. x \<in> set k \<Longrightarrow> x \<noteq> CHR ''=''" by blast
  show "takeWhile (\<lambda>c. c \<noteq> CHR ''='') (k @ CHR ''='' # e) = k"
    by (simp add: takeWhile_append2 [OF k])
  show "drop (Suc 0) (dropWhile (\<lambda>c. c \<noteq> CHR ''='') (k @ CHR ''='' # e)) = e"
    by (simp add: dropWhile_append2 [OF k])
qed

lemma doseq_pairs_Nil:
  "doseq_pairs isprintable d = [] \<longleftrightarrow> (\<forall>(k, v) \<in> set d. v = PyList [] \<or> v = PyDict [])"
  unfolding doseq_pairs_def by (auto simp: doseq_values_Nil)

lemma urlencode_Nil: "urlencode isprintable d = [] \<longleftrightarrow> doseq_pairs isprintable d = []"
proof -
  have "\<forall>x \<in> set (concat (map (urlencode_item isprintable) d)). x \<noteq> []"
    unfolding urlencode_entries by auto
  then show ?thesis
    unfolding urlencode_def by (simp add: join_eq_Nil urlencode_entries)
qed

lemma query_pairs_urlencode: "query_pairs (urlencode isprintable d) = doseq_pairs isprintable d"
proof (cases "doseq_pairs isprintable d = []")
  case True
  then show ?thesis by (simp add: query_pairs_def urlencode_Nil)
next
  case False
  let ?l = "map (\<lambda>(k, e). k @ ''='' @ e) (doseq_pairs isprintable d)"
  have ne: "?l \<noteq> []" using False by simp
  have amp: "\<forall>x \<in> set ?l. CHR ''&'' \<notin> set x"
    using doseq_pairs_no_sep(2,3) [of _ _ isprintable d] by auto
  have split: "split_on CHR ''&'' (urlencode isprintable d) = ?l"
    unfolding urlencode_def urlencode_entries by (rule split_on_join [OF ne amp])
  have "map (\<lambda>p. (takeWhile (\<lambda>c. c \<noteq> CHR ''='') p,
                   drop 1 (dropWhile (\<lambda>c. c \<noteq> CHR ''='') p))) ?l = doseq_pairs isprintable d"
    (is "map ?read ?l = _")
  proof -
    have "\<And>p. p \<in> set (doseq_pairs isprintable d) \<Longrightarrow> ?read ((\<lambda>(k, e). k @ ''='' @ e) p) = p"
      using doseq_pairs_no_sep(1) [of _ _ isprintable d] by (auto simp: read_pair)
    then show ?thesis by (simp add: comp_def map_idI)
  qed
  with split False show ?thesis by (simp add: query_pairs_def urlencode_Nil)
qed

subsection \<open>What \<^verbatim>\<open>get\<close> and \<^verbatim>\<open>post\<close> send and return\<close>

lemma get_sends:
  assumes "get_url isprintable MessageToDict self url_base_path request used_params = Inr url"
  shows "get isprintable MessageToDict http self url_base_path request used_params =
     (case http \<lparr>req_method = GET, req_url = url, req_json = None, req_headers = []\<rparr> of
        Inl m \<Rightarrow> Inl (RequestException m)
      | Inr response \<Rightarrow>
          if status_code response \<noteq> 200
          then Inl (RuntimeError (get_error_message response))
          else Inr (content response),
      self\<lparr>session := (session self)\<lparr>sent := sent (session self)
         @ [\<lparr>req_method = GET, req_url = url, req_json = None, req_headers = []\<rparr>]\<rparr>\<rparr>)"
  using assms
  by (simp add: get_def session_get_def session_request_def split: sum.splits)

lemma get_raises_before_sending:
  assumes "get_url isprintable MessageToDict self url_base_path request used_params = Inl e"
  shows "get isprintable MessageToDict http self url_base_path request used_params = (Inl e, self)"
  using assms by (simp add: get_def)

lemma post_sends:
  "post isprintable MessageToDict http self url_base_path request =
     (case http \<lparr>req_method = POST, req_url = rest_address self @ url_base_path,
                 req_json = Some (MessageToDict request), req_headers = post_headers\<rparr> of
        Inl m \<Rightarrow> Inl (RequestException m)
      | Inr response \<Rightarrow>
          if status_code response \<noteq> 200
          then Inl (RuntimeError (post_error_message isprintable (MessageToDict request) response))
          else Inr (content response),
      self\<lparr>session := (session self)\<lparr>sent := sent (session self)
         @ [\<lparr>req_method = POST, req_url = rest_address self @ url_base_path,
             req_json = Some (MessageToDict request), req_headers = post_headers\<rparr>]\<rparr>\<rparr>)"
  by (simp add: post_def session_post_def session_request_def Let_def split: sum.splits)

lemma get_url_None:
  "get_url isprintable MessageToDict self url_base_path None used_params =
     Inr (rest_address self @ url_base_path)"
  by (simp add: get_url_def)

lemma get_url_Some:
  "get_url isprintable MessageToDict self url_base_path (Some req) used_params =
     (case remove_used_params used_params (MessageToDict req) of
        Inl e \<Rightarrow> Inl e
      | Inr d \<Rightarrow> Inr (if urlencode isprintable d = [] then rest_address self @ url_base_path
                      else rest_address self @ url_base_path @ ''?'' @ urlencode isprintable d))"
  by (simp add: get_url_def Let_def split: sum.splits)

lemma urlencode_empty_iff:
  "urlencode isprintable d = [] \<longleftrightarrow> (\<forall>(k, v) \<in> set d. v = PyList [] \<or> v = PyDict [])"
  by (simp add: urlencode_Nil doseq_pairs_Nil)

lemma doseq_pairs_append: "doseq_pairs isprintable (d1 @ d2) = doseq_pairs isprintable d1 @ doseq_pairs isprintable d2"
  by (simp add: doseq_pairs_def)

lemma keys_of_block: "fst ` (\<lambda>e. (a, f e)) ` set xs = (if xs = [] then {} else {a})"
  by (cases xs) (auto simp: image_iff)

lemma doseq_pairs_keys_values:
  "fst ` set (doseq_pairs isprintable d)
     = quote_plus ` {k. \<exists>v. (k, v) \<in> set d \<and> doseq_values isprintable v \<noteq> []}"
proof (induction d)
  case Nil
  show ?case by (simp add: doseq_pairs_def)
next
  case (Cons kv d)
  obtain k v where kv: "kv = (k, v)" by (cases kv)
  have 1: "doseq_pairs isprintable (kv # d)
      = map (\<lambda>e. (quote_plus k, quote_plus e)) (doseq_values isprintable v) @ doseq_pairs isprintable d"
    by (simp add: doseq_pairs_def kv)
  have 2: "{k'. \<exists>v'. (k', v') \<in> set (kv # d) \<and> doseq_values isprintable v' \<noteq> []}
      = (if doseq_values isprintable v = [] then {} else {k})
        \<union> {k'. \<exists>v'. (k', v') \<in> set d \<and> doseq_values isprintable v' \<noteq> []}"
    unfolding kv by auto
  show ?case
    unfolding 1 2 by (simp add: image_Un keys_of_block Cons.IH)
qed

lemma doseq_pairs_keys:
  "fst ` set (doseq_pairs isprintable d)
     = quote_plus ` {k. \<exists>v. (k, v) \<in> set d \<and> v \<noteq> PyList [] \<and> v \<noteq> PyDict []}"
  by (simp add: doseq_pairs_keys_values doseq_values_Nil)

subsection \<open>Decoding the query string\<close>

lemma hex_digits_all:
  "list_all (\<lambda>i. hex_val (''0123456789ABCDEF'' ! i) = i
                \<and> is_hex (''0123456789ABCDEF'' ! i)
                \<and> ''0123456789ABCDEF'' ! i \<noteq> CHR ''+'') [0..<16]"
  by code_simp

lemma hex_digit:
  assumes "i < 16"
  shows "hex_val (''0123456789ABCDEF'' ! i) = i"
    and "is_hex (''0123456789ABCDEF'' ! i)"
    and "''0123456789ABCDEF'' ! i \<noteq> CHR ''+''"
proof -
  from assms have "i \<in> set [0..<16]" by simp
  with hex_digits_all have "hex_val (''0123456789ABCDEF'' ! i) = i
                \<and> is_hex (''0123456789ABCDEF'' ! i)
                \<and> ''0123456789ABCDEF'' ! i \<noteq> CHR ''+''"
    unfolding list_all_iff by blast
  then show "hex_val (''0123456789ABCDEF'' ! i) = i"
    and "is_hex (''0123456789ABCDEF'' ! i)"
    and "''0123456789ABCDEF'' ! i \<noteq> CHR ''+''" by blast+
qed

lemma unquote_percent: "unquote (percent c @ rest) = c # unquote rest"
proof -
  have 1: "(of_char c :: nat) div 16 < 16"
    by (rule less_mult_imp_div_less) (use of_char_lt_256 [of c] in simp)
  have 2: "(of_char c :: nat) mod 16 < 16" by simp
  have "char_of (16 * ((of_char c :: nat) div 16) + (of_char c :: nat) mod 16) = c"
    by simp
  then show ?thesis
    by (simp add: percent_def hex_digit [OF 1] hex_digit [OF 2])
qed


lemma percent_no_plus: "CHR ''+'' \<notin> set (percent c)"
proof -
  have 1: "(of_char c :: nat) div 16 < 16"
    by (rule less_mult_imp_div_less) (use of_char_lt_256 [of c] in simp)
  have 2: "(of_char c :: nat) mod 16 < 16" by simp
  from hex_digit(3) [OF 1] hex_digit(3) [OF 2] show ?thesis
    by (simp add: percent_def)
qed

lemma safe_not_special:
  assumes "always_safe c"
  shows "c \<noteq> CHR ''+''" "c \<noteq> CHR ''%''" "c \<noteq> CHR '' ''"
proof -
  have "\<not> always_safe CHR ''+''" "\<not> always_safe CHR ''%''" "\<not> always_safe CHR '' ''"
    by (simp_all add: always_safe_def)
  with assms show "c \<noteq> CHR ''+''" "c \<noteq> CHR ''%''" "c \<noteq> CHR '' ''" by blast+
qed

text \<open>What \<open>quote_plus\<close> does to one byte.\<close>

lemma quote_plus_bytes:
  "quote_plus s =
     concat (map (\<lambda>c. if c = CHR '' '' then ''+''
                       else if always_safe c then [c] else percent c) s)"
proof (cases "CHR '' '' \<in> set s")
  case False
  then have "\<And>c. c \<in> set s \<Longrightarrow> c \<noteq> CHR '' ''" by blast
  then have "map (\<lambda>c. if always_safe c \<or> c \<in> set [] then [c] else percent c) s
      = map (\<lambda>c. if c = CHR '' '' then ''+''
                       else if always_safe c then [c] else percent c) s"
    by (intro map_cong) simp_all
  then have "quote s [] = concat (map (\<lambda>c. if c = CHR '' '' then ''+''
                       else if always_safe c then [c] else percent c) s)"
    unfolding quote_def by (rule arg_cong)
  with False show ?thesis by (simp add: quote_plus_def)
next
  case True
  have "map (\<lambda>c. if c = CHR '' '' then CHR ''+'' else c)
          (concat (map (\<lambda>c. if always_safe c \<or> c \<in> set '' '' then [c] else percent c) s))
      = concat (map (\<lambda>c. if c = CHR '' '' then ''+''
                       else if always_safe c then [c] else percent c) s)"
  proof (induction s)
    case Nil
    show ?case by simp
  next
    case (Cons c s)
    have "map (\<lambda>c. if c = CHR '' '' then CHR ''+'' else c)
            (if always_safe c \<or> c \<in> set '' '' then [c] else percent c)
        = (if c = CHR '' '' then ''+'' else if always_safe c then [c] else percent c)"
    proof (cases "c = CHR '' ''")
      case True
      then show ?thesis by simp
    next
      case sp: False
      show ?thesis
      proof (cases "always_safe c")
        case True
        with sp show ?thesis by simp
      next
        case False
        have "CHR '' '' \<notin> set (percent c)"
          using percent_chars [of "CHR '' ''" c] by auto
        then have "map (\<lambda>c. if c = CHR '' '' then CHR ''+'' else c) (percent c) = percent c"
          by (intro map_idI) auto
        with sp False show ?thesis by simp
      qed
    qed
    with Cons.IH show ?case by simp
  qed
  with True show ?thesis by (simp add: quote_plus_def quote_def)
qed

lemma unquote_plus_quote_plus: "unquote_plus (quote_plus s) = s"
proof -
  let ?r = "map (\<lambda>c. if c = CHR ''+'' then CHR '' '' else c)"
  have "unquote (?r (concat (map (\<lambda>c. if c = CHR '' '' then ''+''
                       else if always_safe c then [c] else percent c) s))) = s"
  proof (induction s)
    case Nil
    show ?case by simp
  next
    case (Cons c s)
    show ?case
    proof (cases "c = CHR '' ''")
      case True
      with Cons.IH show ?thesis by simp
    next
      case sp: False
      show ?thesis
      proof (cases "always_safe c")
        case True
        with sp safe_not_special [OF True] Cons.IH show ?thesis by simp
      next
        case False
        have "?r (percent c) = percent c"
          using percent_no_plus [of c] by (intro map_idI) auto
        with sp False Cons.IH show ?thesis by (simp add: unquote_percent)
      qed
    qed
  qed
  then show ?thesis by (simp add: unquote_plus_def quote_plus_bytes)
qed

lemma doseq_pairs_expansion:
  "doseq_pairs isprintable d = map (\<lambda>(k, e). (quote_plus k, quote_plus e)) (expansion isprintable d)"
  by (induction d) (auto simp: doseq_pairs_def expansion_def comp_def)

lemma decoded_pairs_urlencode: "decoded_pairs (urlencode isprintable d) = expansion isprintable d"
  by (simp add: decoded_pairs_def query_pairs_urlencode doseq_pairs_expansion comp_def
      case_prod_unfold unquote_plus_quote_plus)

lemma expansion_keys:
  "fst ` set (expansion isprintable d) = {k. \<exists>v. (k, v) \<in> set d \<and> v \<noteq> PyList [] \<and> v \<noteq> PyDict []}"
proof -
  have "fst ` set (expansion isprintable d) = {k. \<exists>v. (k, v) \<in> set d \<and> doseq_values isprintable v \<noteq> []}"
  proof (induction d)
    case Nil
    show ?case by (simp add: expansion_def)
  next
    case (Cons kv d)
    obtain k v where kv: "kv = (k, v)" by (cases kv)
    have 1: "expansion isprintable (kv # d) = map (\<lambda>e. (k, e)) (doseq_values isprintable v) @ expansion isprintable d"
      by (simp add: expansion_def kv)
    have 2: "{k'. \<exists>v'. (k', v') \<in> set (kv # d) \<and> doseq_values isprintable v' \<noteq> []}
        = (if doseq_values isprintable v = [] then {} else {k})
          \<union> {k'. \<exists>v'. (k', v') \<in> set d \<and> doseq_values isprintable v' \<noteq> []}"
      unfolding kv by auto
    show ?case
      unfolding 1 2 by (simp add: image_Un keys_of_block Cons.IH)
  qed
  then show ?thesis by (simp add: doseq_values_Nil)
qed

subsection \<open>The client over a sequence of calls\<close>

text \<open>Every call keeps the session and the address, and only adds to what was sent.\<close>

lemma call_invariant:
  "session_id (session (call isprintable MessageToDict self c)) = session_id (session self)
   \<and> rest_address (call isprintable MessageToDict self c) = rest_address self
   \<and> prefix (sent (session self)) (sent (session (call isprintable MessageToDict self c)))"
proof (cases c)
  case (CallGet http url_base_path request used_params)
  show ?thesis
  proof (cases "get_url isprintable MessageToDict self url_base_path request used_params")
    case (Inl e)
    then show ?thesis using CallGet by (simp add: get_raises_before_sending)
  next
    case (Inr url)
    then show ?thesis using CallGet by (simp add: get_sends)
  qed
next
  case (CallPost http url_base_path request)
  then show ?thesis by (simp add: post_sends)
next
  case CallDel
  then show ?thesis by (simp add: del_def session_close_def)
qed

lemma calls_invariant:
  "session_id (session (calls isprintable MessageToDict self cs)) = session_id (session self)
   \<and> rest_address (calls isprintable MessageToDict self cs) = rest_address self
   \<and> prefix (sent (session self)) (sent (session (calls isprintable MessageToDict self cs)))"
  unfolding calls_def
proof (induction cs arbitrary: self)
  case Nil
  show ?case by simp
next
  case (Cons c cs)
  from Cons.IH [of "call isprintable MessageToDict self c"] call_invariant [of isprintable MessageToDict self c]
  show ?case by (auto intro: prefix_order.trans)
qed

text \<open>
  Only \<^verbatim>\<open>__del__\<close> closes the session; \<^verbatim>\<open>get\<close> and \<^verbatim>\<open>post\<close> leave it as it
  was, whether they return or raise.
\<close>

lemma del_closes: "closed (session (del self))"
  by (simp add: del_def session_close_def)

lemma get_post_keep_closed:
  "closed (session (snd (get isprintable MessageToDict http self url_base_path request used_params)))
     = closed (session self)"
  "closed (session (snd (post isprintable MessageToDict http self url_base_path req)))
     = closed (session self)"
proof -
  show "closed (session (snd (get isprintable MessageToDict http self url_base_path request used_params)))
     = closed (session self)"
    by (cases "get_url isprintable MessageToDict self url_base_path request used_params")
      (simp_all add: get_raises_before_sending get_sends)
  show "closed (session (snd (post isprintable MessageToDict http self url_base_path req)))
     = closed (session self)"
    by (simp add: post_sends)
qed

text \<open>
  A body of printable ASCII bytes with no quote and no backslash stands in its
  \<^verbatim>\<open>repr\<close> as it is, between \<^verbatim>\<open>b'\<close> and \<^verbatim>\<open>'\<close>.
\<close>

lemma repr_bytes_plain:
  assumes "\<forall>c \<in> set b. 32 \<le> (of_char c :: nat) \<and> (of_char c :: nat) < 127
             \<and> c \<noteq> CHR 0x27 \<and> c \<noteq> CHR 0x5C"
  shows "repr_bytes b = [CHR ''b'', CHR 0x27] @ b @ [CHR 0x27]"
proof -
  from assms have q: "repr_quote b = CHR 0x27"
    by (auto simp: repr_quote_def)
  have "\<And>c. c \<in> set b \<Longrightarrow> repr_char True (CHR 0x27) c = [c]"
  proof -
    fix c assume "c \<in> set b"
    with assms have c: "32 \<le> (of_char c :: nat)" "(of_char c :: nat) < 127"
      "c \<noteq> CHR 0x27" "c \<noteq> CHR 0x5C" by auto
    from c(1) have "c \<noteq> CHR 0x09" "c \<noteq> CHR 0x0A" "c \<noteq> CHR 0x0D" by auto
    with c show "repr_char True (CHR 0x27) c = [c]"
      by (simp add: repr_char_def)
  qed
  then have "concat (map (repr_char True (CHR 0x27)) b) = b"
    by (induction b) simp_all
  with q show ?thesis by (simp add: repr_bytes_def Let_def)
qed

section \<open>The claims of the specification\<close>

subsection \<open>Status codes\<close>

text \<open>
  Claim C1. Whenever the answer to the request has a status code other than 200,
  \<^verbatim>\<open>get\<close> and \<^verbatim>\<open>post\<close> raise \<^verbatim>\<open>RuntimeError\<close>; no other status counts as success.
  The message holds the status code in decimal and the body as \<^verbatim>\<open>str\<close> prints a
  \<^verbatim>\<open>bytes\<close> (\<open>repr_bytes\<close>; by \<open>repr_bytes_plain\<close> a body of plain printable bytes is
  there as it is); the message of \<^verbatim>\<open>post\<close> holds the encoded request as well, as
  \<^verbatim>\<open>str\<close> prints the dict. For \<^verbatim>\<open>get\<close> the answer is the one to the request for the
  URL that \<open>get_url\<close> built.
\<close>

theorem non_200_raises_RuntimeError:
  assumes "status_code response \<noteq> 200"
  shows
    "(get_url isprintable MessageToDict self url_base_path request used_params = Inr url
        \<and> http \<lparr>req_method = GET, req_url = url, req_json = None, req_headers = []\<rparr>
            = Inr response
      \<longrightarrow> fst (get isprintable MessageToDict http self url_base_path request used_params)
            = Inl (RuntimeError (get_error_message response)))
     \<and> (http \<lparr>req_method = POST, req_url = rest_address self @ url_base_path,
              req_json = Some (MessageToDict req), req_headers = post_headers\<rparr>
            = Inr response
      \<longrightarrow> fst (post isprintable MessageToDict http self url_base_path req)
            = Inl (RuntimeError (post_error_message isprintable (MessageToDict req) response)))
     \<and> sublist (str_int (status_code response)) (get_error_message response)
     \<and> sublist (repr_bytes (content response)) (get_error_message response)
     \<and> sublist (str_int (status_code response)) (post_error_message isprintable d response)
     \<and> sublist (repr_bytes (content response)) (post_error_message isprintable d response)
     \<and> sublist (py_str isprintable (PyDict d)) (post_error_message isprintable d response)"
proof -
  have g: "get_url isprintable MessageToDict self url_base_path request used_params = Inr url
        \<and> http \<lparr>req_method = GET, req_url = url, req_json = None, req_headers = []\<rparr>
            = Inr response
      \<longrightarrow> fst (get isprintable MessageToDict http self url_base_path request used_params)
            = Inl (RuntimeError (get_error_message response))"
    using assms by (simp add: get_sends)
  have p: "http \<lparr>req_method = POST, req_url = rest_address self @ url_base_path,
              req_json = Some (MessageToDict req), req_headers = post_headers\<rparr>
            = Inr response
      \<longrightarrow> fst (post isprintable MessageToDict http self url_base_path req)
            = Inl (RuntimeError (post_error_message isprintable (MessageToDict req) response))"
    using assms by (simp add: post_sends)
  have m1: "sublist (str_int (status_code response)) (get_error_message response)"
    unfolding get_error_message_def sublist_def by (metis append.assoc)
  have m2: "sublist (repr_bytes (content response)) (get_error_message response)"
    unfolding get_error_message_def sublist_def by (metis append.assoc)
  have m3: "sublist (str_int (status_code response)) (post_error_message isprintable d response)"
    unfolding post_error_message_def sublist_def by (metis append.assoc)
  have m4: "sublist (repr_bytes (content response)) (post_error_message isprintable d response)"
    unfolding post_error_message_def sublist_def by (metis append.assoc)
  have m5: "sublist (py_str isprintable (PyDict d)) (post_error_message isprintable d response)"
    unfolding post_error_message_def sublist_def by (metis append.assoc)
  from g p m1 m2 m3 m4 m5 show ?thesis by blast
qed

text \<open>
  A GET answered with 404 and a POST answered with 201: both raise, with these
  messages.
\<close>

theorem non_200_raises_RuntimeError_witness:
  "status_code \<lparr>status_code = 404, content = ''not found''\<rparr> \<noteq> 200
   \<and> fst (get ascii_table id (answer 404 ''not found'') example_client ''/blocks/latest'' None None)
       = Inl (RuntimeError
           (''Error when sending a GET request.'' @ [CHR 0x0A] @ '' Response: 404, b''
            @ [CHR 0x27] @ ''not found'' @ [CHR 0x27] @ '')''))
   \<and> status_code \<lparr>status_code = 201, content = ''{}''\<rparr> \<noteq> 200
   \<and> fst (post ascii_table id (answer 201 ''{}'') example_client ''/cosmos/tx/v1beta1/txs'' tx_request)
       = Inl (RuntimeError
           (''Error when sending a POST request.'' @ [CHR 0x0A] @ '' Request: {''
            @ [CHR 0x27] @ ''tx_bytes'' @ [CHR 0x27] @ '': ''
            @ [CHR 0x27] @ ''AB=='' @ [CHR 0x27] @ '', ''
            @ [CHR 0x27] @ ''mode'' @ [CHR 0x27] @ '': ''
            @ [CHR 0x27] @ ''BROADCAST_MODE_SYNC'' @ [CHR 0x27] @ ''}'' @ [CHR 0x0A]
            @ '' Response: 201, b'' @ [CHR 0x27] @ ''{}'' @ [CHR 0x27] @ '')''))"
proof -
  let ?r = "\<lparr>status_code = 404, content = ''not found''\<rparr>"
  let ?c = "\<lparr>status_code = 201, content = ''{}''\<rparr>"
  have h: "status_code ?r \<noteq> 200" by simp
  have h': "status_code ?c \<noteq> 200" by simp
  have u: "get_url ascii_table id example_client ''/blocks/latest'' None None
      = Inr ''http://localhost:1317/blocks/latest''"
    by code_simp
  have a: "\<And>rq. answer 404 ''not found'' rq = Inr ?r"
    by (simp add: answer_def)
  have a': "\<And>rq. answer 201 ''{}'' rq = Inr ?c"
    by (simp add: answer_def)
  have mg: "get_error_message ?r
      = ''Error when sending a GET request.'' @ [CHR 0x0A] @ '' Response: 404, b''
        @ [CHR 0x27] @ ''not found'' @ [CHR 0x27] @ '')''"
    by code_simp
  have mp: "post_error_message ascii_table (id tx_request) ?c
      = ''Error when sending a POST request.'' @ [CHR 0x0A] @ '' Request: {''
        @ [CHR 0x27] @ ''tx_bytes'' @ [CHR 0x27] @ '': ''
        @ [CHR 0x27] @ ''AB=='' @ [CHR 0x27] @ '', ''
        @ [CHR 0x27] @ ''mode'' @ [CHR 0x27] @ '': ''
        @ [CHR 0x27] @ ''BROADCAST_MODE_SYNC'' @ [CHR 0x27] @ ''}'' @ [CHR 0x0A]
        @ '' Response: 201, b'' @ [CHR 0x27] @ ''{}'' @ [CHR 0x27] @ '')''"
    by code_simp
  from non_200_raises_RuntimeError [OF h, where isprintable = ascii_table and MessageToDict = id
      and self = example_client and url_base_path = "''/blocks/latest''"
      and request = None and used_params = None
      and url = "''http://localhost:1317/blocks/latest''"
      and http = "answer 404 ''not found''"] u a
  have 1: "fst (get ascii_table id (answer 404 ''not found'') example_client ''/blocks/latest'' None None)
      = Inl (RuntimeError (get_error_message ?r))"
    by blast
  from non_200_raises_RuntimeError [OF h', where isprintable = ascii_table and MessageToDict = id
      and self = example_client and url_base_path = "''/cosmos/tx/v1beta1/txs''"
      and req = tx_request and http = "answer 201 ''{}''"] a'
  have 2: "fst (post ascii_table id (answer 201 ''{}'') example_client ''/cosmos/tx/v1beta1/txs''
            tx_request)
      = Inl (RuntimeError (post_error_message ascii_table (id tx_request) ?c))"
    by blast
  from h h' 1 2 show ?thesis unfolding mg mp by blast
qed

text \<open>
  Claim C4. When the answer has status code 200, \<^verbatim>\<open>get\<close> and \<^verbatim>\<open>post\<close> return its
  body, the very bytes of \<^verbatim>\<open>response.content\<close>.
\<close>

theorem status_200_returns_content:
  assumes "status_code response = 200"
  shows
    "(get_url isprintable MessageToDict self url_base_path request used_params = Inr url
        \<and> http \<lparr>req_method = GET, req_url = url, req_json = None, req_headers = []\<rparr>
            = Inr response
      \<longrightarrow> fst (get isprintable MessageToDict http self url_base_path request used_params)
            = Inr (content response))
     \<and> (http \<lparr>req_method = POST, req_url = rest_address self @ url_base_path,
              req_json = Some (MessageToDict req), req_headers = post_headers\<rparr>
            = Inr response
      \<longrightarrow> fst (post isprintable MessageToDict http self url_base_path req) = Inr (content response))"
  using assms by (simp add: get_sends post_sends)

theorem status_200_returns_content_witness:
  "status_code \<lparr>status_code = 200, content = ''{...}''\<rparr> = 200
   \<and> fst (get ascii_table id (answer 200 ''{...}'') example_client ''/blocks/latest'' None None)
       = Inr ''{...}''
   \<and> fst (post ascii_table id (answer 200 ''{...}'') example_client ''/cosmos/tx/v1beta1/txs''
            tx_request)
       = Inr ''{...}''"
proof -
  let ?r = "\<lparr>status_code = 200, content = ''{...}''\<rparr>"
  have h: "status_code ?r = 200" by simp
  have u: "get_url ascii_table id example_client ''/blocks/latest'' None None
      = Inr ''http://localhost:1317/blocks/latest''"
    by code_simp
  have a: "\<And>rq. answer 200 ''{...}'' rq = Inr ?r"
    by (simp add: answer_def)
  from status_200_returns_content [OF h, where isprintable = ascii_table and MessageToDict = id
      and self = example_client and url_base_path = "''/blocks/latest''"
      and request = None and used_params = None
      and url = "''http://localhost:1317/blocks/latest''"
      and http = "answer 200 ''{...}''"] u a
  have 1: "fst (get ascii_table id (answer 200 ''{...}'') example_client ''/blocks/latest'' None None)
      = Inr (content ?r)"
    by blast
  from status_200_returns_content [OF h, where isprintable = ascii_table and MessageToDict = id
      and self = example_client and url_base_path = "''/cosmos/tx/v1beta1/txs''"
      and req = tx_request and http = "answer 200 ''{...}''"] a
  have 2: "fst (post ascii_table id (answer 200 ''{...}'') example_client ''/cosmos/tx/v1beta1/txs''
            tx_request)
      = Inr (content ?r)"
    by blast
  from h 1 2 show ?thesis by simp
qed

subsection \<open>The URL of \<^verbatim>\<open>get\<close>\<close>

text \<open>
  Claim C2, as amended. With no request object, \<^verbatim>\<open>get\<close> requests the URL
  \<open>rest_address @ url_base_path\<close>. With a request object, let \<open>d\<close> be the encoded mapping
  after the exclusion. When the query string \<open>urlencode isprintable d\<close> is empty the URL is again
  \<open>rest_address @ url_base_path\<close>, and otherwise it is that text, a question mark and
  the query string. The query string is empty for the empty mapping, and more
  generally exactly when every value left in the mapping is an empty list or an
  empty nested mapping. The URL so built is the one of the request sent.
\<close>

theorem get_target_url:
  "get_url isprintable MessageToDict self url_base_path None used_params
     = Inr (rest_address self @ url_base_path)
   \<and> (remove_used_params used_params (MessageToDict req) = Inr d \<longrightarrow>
        get_url isprintable MessageToDict self url_base_path (Some req) used_params
          = Inr (if urlencode isprintable d = [] then rest_address self @ url_base_path
                 else rest_address self @ url_base_path @ ''?'' @ urlencode isprintable d))
   \<and> urlencode isprintable [] = []
   \<and> (urlencode isprintable d = [] \<longleftrightarrow> (\<forall>(k, v) \<in> set d. v = PyList [] \<or> v = PyDict []))
   \<and> (get_url isprintable MessageToDict self url_base_path request used_params = Inr url \<longrightarrow>
        sent (session (snd (get isprintable MessageToDict http self url_base_path request used_params)))
          = sent (session self)
            @ [\<lparr>req_method = GET, req_url = url, req_json = None, req_headers = []\<rparr>])"
proof -
  have 1: "remove_used_params used_params (MessageToDict req) = Inr d \<longrightarrow>
        get_url isprintable MessageToDict self url_base_path (Some req) used_params
          = Inr (if urlencode isprintable d = [] then rest_address self @ url_base_path
                 else rest_address self @ url_base_path @ ''?'' @ urlencode isprintable d)"
    by (simp add: get_url_Some)
  have 2: "urlencode isprintable [] = []"
    by (simp add: urlencode_def)
  have 3: "get_url isprintable MessageToDict self url_base_path request used_params = Inr url \<longrightarrow>
        sent (session (snd (get isprintable MessageToDict http self url_base_path request used_params)))
          = sent (session self)
            @ [\<lparr>req_method = GET, req_url = url, req_json = None, req_headers = []\<rparr>]"
    by (simp add: get_sends)
  from 1 2 3 get_url_None urlencode_empty_iff show ?thesis by blast
qed

theorem get_target_url_witness:
  "remove_used_params (Some [''id'']) (id tags_request)
     = Inr [(''tags'', PyList [PyStr ''a'', PyStr ''b''])]
   \<and> get_url ascii_table id example_client ''/things/7'' (Some tags_request) (Some [''id''])
     = Inr ''http://localhost:1317/things/7?tags=a&tags=b''
   \<and> sent (session (snd (get ascii_table id (answer 200 ''{}'') example_client ''/things/7''
                            (Some tags_request) (Some [''id'']))))
     = [\<lparr>req_method = GET, req_url = ''http://localhost:1317/things/7?tags=a&tags=b'',
         req_json = None, req_headers = []\<rparr>]
   \<and> urlencode ascii_table [(''tags'', PyList [PyStr ''a'', PyStr ''b''])] \<noteq> []
   \<and> \<not> (\<forall>(k, v) \<in> set [(''tags'', PyList [PyStr ''a'', PyStr ''b''])].
          v = PyList [] \<or> v = PyDict [])"
proof -
  let ?d = "[(''tags'', PyList [PyStr ''a'', PyStr ''b''])]"
  have r: "remove_used_params (Some [''id'']) (id tags_request) = Inr ?d"
    by code_simp
  have e: "urlencode ascii_table ?d = ''tags=a&tags=b''"
    by code_simp
  have s: "sent (session example_client) = []"
    by code_simp
  have b: "rest_address example_client = ''http://localhost:1317''"
    by code_simp
  note t = get_target_url [where isprintable = ascii_table and MessageToDict = id and self = example_client
      and url_base_path = "''/things/7''" and req = tags_request
      and used_params = "Some [''id'']" and d = ?d and request = "Some tags_request"
      and url = "''http://localhost:1317/things/7?tags=a&tags=b''"
      and http = "answer 200 ''{}''"]
  from t r have 1: "get_url ascii_table id example_client ''/things/7'' (Some tags_request) (Some [''id''])
      = Inr ''http://localhost:1317/things/7?tags=a&tags=b''"
    by (simp add: e b)
  from t 1 have 2: "sent (session (snd (get ascii_table id (answer 200 ''{}'') example_client ''/things/7''
                            (Some tags_request) (Some [''id'']))))
     = [\<lparr>req_method = GET, req_url = ''http://localhost:1317/things/7?tags=a&tags=b'',
         req_json = None, req_headers = []\<rparr>]"
    by (simp add: s)
  have 3: "urlencode ascii_table ?d \<noteq> []" by (simp add: e)
  from t 3 have 4: "\<not> (\<forall>(k, v) \<in> set ?d. v = PyList [] \<or> v = PyDict [])"
    by blast
  from r 1 2 3 4 show ?thesis by blast
qed

text \<open>
  The claim as it was written takes the URL to carry a query string whenever the
  mapping is not empty after the exclusion. A request whose only field is a
  pagination message that is set but empty encodes to a mapping with one key and to
  the empty query string, and the URL has no question mark; so it is with a field
  left whose value is the empty list.
\<close>

theorem get_target_url_counterexample:
  "remove_used_params None (id empty_page_request) = Inr empty_page_request
   \<and> empty_page_request \<noteq> []
   \<and> get_url ascii_table id example_client ''/cosmos/staking/v1beta1/validators''
        (Some empty_page_request) None
       = Inr ''http://localhost:1317/cosmos/staking/v1beta1/validators''
   \<and> get_url ascii_table id example_client ''/cosmos/staking/v1beta1/validators''
        (Some empty_page_request) None
       \<noteq> Inr (rest_address example_client @ ''/cosmos/staking/v1beta1/validators''
               @ ''?'' @ urlencode ascii_table empty_page_request)
   \<and> remove_used_params (Some [''id'']) (id empty_tags_request) = Inr [(''tags'', PyList [])]
   \<and> [(''tags'', PyList [])] \<noteq> ([] :: pydict)
   \<and> get_url ascii_table id example_client ''/things/7'' (Some empty_tags_request) (Some [''id''])
       = Inr ''http://localhost:1317/things/7''
   \<and> get_url ascii_table id example_client ''/things/7'' (Some empty_tags_request) (Some [''id''])
       \<noteq> Inr (rest_address example_client @ ''/things/7''
               @ ''?'' @ urlencode ascii_table [(''tags'', PyList [])])"
  by code_simp

subsection \<open>The exclusion list\<close>



text \<open>
  Claim C10, as amended. The removal goes through the list in order, and each step needs its key:
  when a key stands twice in the list, and the list up to the second occurrence is
  otherwise made of different keys of the mapping, the steps up to there remove their
  keys, the key is then no longer in the mapping, and the second occurrence makes
  \<^verbatim>\<open>get\<close> raise \<^verbatim>\<open>KeyError\<close> for that key, with nothing sent. Whatever else the
  list holds, a list with a key standing twice makes \<^verbatim>\<open>get\<close> raise \<^verbatim>\<open>KeyError\<close>
  for one of its keys.
\<close>

theorem repeated_used_param_raises_KeyError:
  assumes "distinct (pre @ k # mid)"
    and "set (pre @ k # mid) \<subseteq> fst ` set (MessageToDict req)"
  shows
    "(\<exists>d. pop_params (pre @ k # mid) (MessageToDict req) = Inr d \<and> k \<notin> fst ` set d
          \<and> dict_pop d k = Inl (KeyError k))
     \<and> get isprintable MessageToDict http self url_base_path (Some req) (Some (pre @ k # mid @ k # rest))
         = (Inl (KeyError k), self)
     \<and> (\<not> distinct params \<longrightarrow>
          (\<exists>p \<in> set params.
              get isprintable MessageToDict http self url_base_path (Some req) (Some params)
                = (Inl (KeyError p), self)))"
proof -
  have general: "\<not> distinct params \<longrightarrow>
          (\<exists>p \<in> set params.
              get isprintable MessageToDict http self url_base_path (Some req) (Some params)
                = (Inl (KeyError p), self))"
  proof
    assume "\<not> distinct params"
    then have "\<not> (distinct params \<and> set params \<subseteq> fst ` set (MessageToDict req))"
      by blast
    from pop_params_fails [OF this]
    obtain p where p: "p \<in> set params"
      and e: "pop_params params (MessageToDict req) = Inl (KeyError p)" by blast
    from e have "get_url isprintable MessageToDict self url_base_path (Some req) (Some params)
        = Inl (KeyError p)"
      by (simp add: get_url_Some remove_used_params_def)
    from get_raises_before_sending [OF this] p
    show "\<exists>p \<in> set params.
              get isprintable MessageToDict http self url_base_path (Some req) (Some params)
                = (Inl (KeyError p), self)" by blast
  qed
  let ?d = "filter (\<lambda>(k', v). k' \<notin> set (pre @ k # mid)) (MessageToDict req)"
  from assms have 1: "pop_params (pre @ k # mid) (MessageToDict req) = Inr ?d"
    by (simp only: pop_params_Inr simp_thms)
  have 2: "k \<notin> fst ` set ?d" by auto
  then have 3: "dict_pop ?d k = Inl (KeyError k)" by (simp add: dict_pop_Inl)
  have "pop_params ((pre @ k # mid) @ k # rest) (MessageToDict req)
      = (case pop_params (pre @ k # mid) (MessageToDict req) of
           Inl e \<Rightarrow> Inl e | Inr d' \<Rightarrow> pop_params (k # rest) d')"
    by (rule pop_params_append)
  also have "\<dots> = Inl (KeyError k)"
    unfolding 1 using 3 by simp
  finally have "pop_params ((pre @ k # mid) @ k # rest) (MessageToDict req)
      = Inl (KeyError k)" .
  then have "get_url isprintable MessageToDict self url_base_path (Some req)
      (Some (pre @ k # mid @ k # rest)) = Inl (KeyError k)"
    by (simp add: get_url_Some remove_used_params_def)
  from get_raises_before_sending [OF this] 1 2 3 general show ?thesis by blast
qed

theorem repeated_used_param_raises_KeyError_witness:
  "distinct ([] @ ''id'' # []) \<and> set ([] @ ''id'' # []) \<subseteq> fst ` set (id tags_request)
   \<and> \<not> distinct [''id'', ''id'']
   \<and> dict_pop (id tags_request) ''id'' = Inr [(''tags'', PyList [PyStr ''a'', PyStr ''b''])]
   \<and> get ascii_table id (answer 200 ''{}'') example_client ''/things/7'' (Some tags_request)
        (Some [''id'', ''id''])
     = (Inl (KeyError ''id''), example_client)"
proof -
  have h1: "distinct ([] @ ''id'' # [])" by simp
  have h2: "set ([] @ ''id'' # []) \<subseteq> fst ` set (id tags_request)"
    by (simp add: tags_request_def)
  have p: "dict_pop (id tags_request) ''id'' = Inr [(''tags'', PyList [PyStr ''a'', PyStr ''b''])]"
    by code_simp
  from repeated_used_param_raises_KeyError [where pre = "[]" and k = "''id''"
      and mid = "[]" and isprintable = ascii_table and MessageToDict = id and req = tags_request
      and http = "answer 200 ''{}''" and self = example_client
      and url_base_path = "''/things/7''" and rest = "[]"
      and params = "[''id'', ''id'']", OF h1 h2]
  have "get ascii_table id (answer 200 ''{}'') example_client ''/things/7'' (Some tags_request)
        (Some ([] @ ''id'' # [] @ ''id'' # []))
     = (Inl (KeyError ''id''), example_client)"
    by blast
  then have "get ascii_table id (answer 200 ''{}'') example_client ''/things/7'' (Some tags_request)
        (Some [''id'', ''id''])
     = (Inl (KeyError ''id''), example_client)"
    by simp
  moreover have "\<not> distinct [''id'', ''id'']" by simp
  ultimately show ?thesis using h1 h2 p by blast
qed

text \<open>
  The claim as it was written has the second occurrence of a repeated key raise the
  error whatever else the list holds. The removal stops at the first key that is not
  in the mapping: with \<open>id\<close> repeated after the absent key \<open>height\<close>, \<^verbatim>\<open>get\<close> raises
  \<^verbatim>\<open>KeyError\<close> for \<open>height\<close> and never comes to the second \<open>id\<close>; and with the
  absent key \<open>height\<close> itself repeated, its first occurrence removes nothing and
  raises.
\<close>

theorem repeated_used_param_counterexample:
  "map_of (id tags_request) ''id'' = Some (PyStr ''7'')
   \<and> get ascii_table id (answer 200 ''{}'') example_client ''/things/7'' (Some tags_request)
        (Some [''id'', ''height'', ''id''])
     = (Inl (KeyError ''height''), example_client)
   \<and> get ascii_table id (answer 200 ''{}'') example_client ''/things/7'' (Some tags_request)
        (Some [''id'', ''height'', ''id''])
     \<noteq> (Inl (KeyError ''id''), example_client)
   \<and> get ascii_table id (answer 200 ''{}'') example_client ''/things/7'' (Some tags_request)
        (Some [''tags'', ''height'', ''id'', ''tags''])
     = (Inl (KeyError ''height''), example_client)
   \<and> dict_pop (id tags_request) ''height'' = Inl (KeyError ''height'')
   \<and> get ascii_table id (answer 200 ''{}'') example_client ''/things/7'' (Some tags_request)
        (Some [''height'', ''height''])
     = (Inl (KeyError ''height''), example_client)"
  by code_simp

text \<open>
  Claim C9. With no request object \<^verbatim>\<open>get\<close> never looks at the exclusion list: the
  call does what it does with no list at all, the URL is
  \<open>rest_address @ url_base_path\<close>, that request is sent, and no \<^verbatim>\<open>KeyError\<close>
  comes out.
\<close>

theorem get_without_request_ignores_used_params:
  "get isprintable MessageToDict http self url_base_path None used_params
     = get isprintable MessageToDict http self url_base_path None None
   \<and> get_url isprintable MessageToDict self url_base_path None used_params
     = Inr (rest_address self @ url_base_path)
   \<and> sent (session (snd (get isprintable MessageToDict http self url_base_path None used_params)))
     = sent (session self)
       @ [\<lparr>req_method = GET, req_url = rest_address self @ url_base_path,
           req_json = None, req_headers = []\<rparr>]
   \<and> fst (get isprintable MessageToDict http self url_base_path None used_params) \<noteq> Inl (KeyError k)"
  by (simp add: get_sends [OF get_url_None] get_url_None split: sum.splits)

subsection \<open>The query string\<close>

text \<open>
  Claim C5, as amended. In \<^verbatim>\<open>get\<close>, when the query string of the mapping \<open>d\<close> left
  after the exclusion is not empty, the URL ends in a question mark and that query
  string. The query string reads back as the expansion of \<open>d\<close>, item by item in the
  order of \<open>d\<close>, with keys and values quoted, and decodes to the expansion itself: a
  field whose value is a list of n values gives n pairs with its key, one for each
  element in turn, and never one pair with the elements joined. The keys of the query
  string are the keys of \<open>d\<close> whose value is neither an empty list nor an empty nested
  mapping.
\<close>

theorem query_string_doseq:
  assumes "remove_used_params used_params (MessageToDict req) = Inr d"
    and "urlencode isprintable d \<noteq> []"
  shows
    "get_url isprintable MessageToDict self url_base_path (Some req) used_params
       = Inr (rest_address self @ url_base_path @ ''?'' @ urlencode isprintable d)
     \<and> query_pairs (urlencode isprintable d) = doseq_pairs isprintable d
     \<and> decoded_pairs (urlencode isprintable d) = expansion isprintable d
     \<and> (d = d1 @ (k, PyList elts) # d2 \<longrightarrow>
          query_pairs (urlencode isprintable d)
            = doseq_pairs isprintable d1
              @ map (\<lambda>elt. (quote_plus k, quote_plus (py_str isprintable elt))) elts
              @ doseq_pairs isprintable d2
          \<and> decoded_pairs (urlencode isprintable d)
            = expansion isprintable d1 @ map (\<lambda>elt. (k, py_str isprintable elt)) elts @ expansion isprintable d2)
     \<and> fst ` set (decoded_pairs (urlencode isprintable d))
         = {k. \<exists>v. (k, v) \<in> set d \<and> v \<noteq> PyList [] \<and> v \<noteq> PyDict []}"
proof -
  from assms have 1: "get_url isprintable MessageToDict self url_base_path (Some req) used_params
       = Inr (rest_address self @ url_base_path @ ''?'' @ urlencode isprintable d)"
    by (simp add: get_url_Some)
  have 2: "d = d1 @ (k, PyList elts) # d2 \<longrightarrow>
          query_pairs (urlencode isprintable d)
            = doseq_pairs isprintable d1
              @ map (\<lambda>elt. (quote_plus k, quote_plus (py_str isprintable elt))) elts
              @ doseq_pairs isprintable d2
          \<and> decoded_pairs (urlencode isprintable d)
            = expansion isprintable d1 @ map (\<lambda>elt. (k, py_str isprintable elt)) elts @ expansion isprintable d2"
    by (simp add: query_pairs_urlencode decoded_pairs_urlencode doseq_pairs_def
        expansion_def comp_def)
  from 1 2 show ?thesis
    by (simp only: query_pairs_urlencode decoded_pairs_urlencode expansion_keys simp_thms)
qed

theorem query_string_doseq_witness:
  "remove_used_params None (id tags_request) = Inr tags_request
   \<and> urlencode ascii_table tags_request = ''id=7&tags=a&tags=b''
   \<and> tags_request = [(''id'', PyStr ''7'')] @ (''tags'', PyList [PyStr ''a'', PyStr ''b'']) # []
   \<and> get_url ascii_table id example_client ''/things'' (Some tags_request) None
       = Inr ''http://localhost:1317/things?id=7&tags=a&tags=b''
   \<and> decoded_pairs ''id=7&tags=a&tags=b''
       = [(''id'', ''7''), (''tags'', ''a''), (''tags'', ''b'')]
   \<and> fst ` set (decoded_pairs ''id=7&tags=a&tags=b'') = {''id'', ''tags''}"
proof -
  have h1: "remove_used_params None (id tags_request) = Inr tags_request"
    by (simp add: remove_used_params_def)
  have e: "urlencode ascii_table tags_request = ''id=7&tags=a&tags=b''"
    by code_simp
  then have h2: "urlencode ascii_table tags_request \<noteq> []" by simp
  have s: "tags_request
      = [(''id'', PyStr ''7'')] @ (''tags'', PyList [PyStr ''a'', PyStr ''b'']) # []"
    by (simp add: tags_request_def)
  have b: "rest_address example_client = ''http://localhost:1317''"
    by code_simp
  have p: "expansion ascii_table [(''id'', PyStr ''7'')] = [(''id'', ''7'')]" "expansion ascii_table [] = []"
    by code_simp+
  have q: "map (\<lambda>elt. (''tags'', py_str ascii_table elt)) [PyStr ''a'', PyStr ''b'']
      = [(''tags'', ''a''), (''tags'', ''b'')]"
    by code_simp
  note t = query_string_doseq [where isprintable = ascii_table and MessageToDict = id and req = tags_request
      and used_params = None and d = tags_request and self = example_client
      and url_base_path = "''/things''" and ?d1.0 = "[(''id'', PyStr ''7'')]"
      and k = "''tags''" and elts = "[PyStr ''a'', PyStr ''b'']" and ?d2.0 = "[]",
      OF h1 h2]
  from t have 1: "get_url ascii_table id example_client ''/things'' (Some tags_request) None
       = Inr ''http://localhost:1317/things?id=7&tags=a&tags=b''"
    by (simp add: e b)
  from t s have "decoded_pairs (urlencode ascii_table tags_request)
      = expansion ascii_table [(''id'', PyStr ''7'')]
        @ map (\<lambda>elt. (''tags'', py_str ascii_table elt)) [PyStr ''a'', PyStr ''b'']
        @ expansion ascii_table []"
    by blast
  then have 2: "decoded_pairs ''id=7&tags=a&tags=b''
      = [(''id'', ''7''), (''tags'', ''a''), (''tags'', ''b'')]"
    unfolding e p q by simp
  then have 3: "fst ` set (decoded_pairs ''id=7&tags=a&tags=b'') = {''id'', ''tags''}"
    by auto
  from h1 e s 1 2 3 show ?thesis by blast
qed

text \<open>
  The claim as it was written has every key left after the exclusion in the query
  string. A balances request with a pagination message that is set but empty keeps
  the key \<open>pagination\<close> after \<open>address\<close> is removed, and its query string has the key
  \<open>denom\<close> only; a field whose value is the empty list is left out in the same way.
\<close>

theorem query_string_keys_counterexample:
  "remove_used_params (Some [''address'']) (id balances_request)
     = Inr [(''denom'', PyStr ''atestfet''), (''pagination'', PyDict [])]
   \<and> get_url ascii_table id example_client ''/cosmos/bank/v1beta1/balances/fetch1xyz''
        (Some balances_request) (Some [''address''])
     = Inr ''http://localhost:1317/cosmos/bank/v1beta1/balances/fetch1xyz?denom=atestfet''
   \<and> map fst [(''denom'', PyStr ''atestfet''), (''pagination'', PyDict [])]
     = [''denom'', ''pagination'']
   \<and> map fst (decoded_pairs ''denom=atestfet'') = [''denom'']
   \<and> set (map fst (decoded_pairs ''denom=atestfet''))
     \<noteq> set (map fst [(''denom'', PyStr ''atestfet''), (''pagination'', PyDict [])])
   \<and> remove_used_params None (id empty_tags_request) = Inr empty_tags_request
   \<and> get_url ascii_table id example_client ''/things'' (Some empty_tags_request) None
     = Inr ''http://localhost:1317/things?id=7''
   \<and> map fst empty_tags_request = [''id'', ''tags'']
   \<and> map fst (decoded_pairs ''id=7'') = [''id'']"
  by code_simp

subsection \<open>The request of \<^verbatim>\<open>post\<close>\<close>

text \<open>
  Claim C6. \<^verbatim>\<open>post\<close> sends one request through the session: a POST to
  \<open>rest_address @ url_base_path\<close>, with nothing appended, whose \<^verbatim>\<open>json\<close> argument is the
  encoded mapping of the request and whose headers are \<^verbatim>\<open>Content-type\<close> and
  \<^verbatim>\<open>Accept\<close>, both \<^verbatim>\<open>application/json\<close>.
\<close>

theorem post_sends_one_json_request:
  "sent (session (snd (post isprintable MessageToDict http self url_base_path request)))
     = sent (session self)
       @ [\<lparr>req_method = POST, req_url = rest_address self @ url_base_path,
           req_json = Some (MessageToDict request),
           req_headers = [(''Content-type'', ''application/json''),
                          (''Accept'', ''application/json'')]\<rparr>]"
  by (simp add: post_sends post_headers_def)

subsection \<open>The session and the base address\<close>

text \<open>
  Claim C7. \<^verbatim>\<open>__init__\<close> creates one session and stores the address. Let \<open>client\<close> be
  the client after any sequence of calls of \<^verbatim>\<open>get\<close>, \<^verbatim>\<open>post\<close> and \<^verbatim>\<open>__del__\<close>,
  whatever they returned or raised. It still holds the session of \<^verbatim>\<open>__init__\<close> and
  the same address. A further \<^verbatim>\<open>get\<close> sends its request through that session: the
  session afterwards is the same one with the GET for the URL added to what was sent
  (and the same one untouched when \<^verbatim>\<open>get\<close> raises before sending); a further
  \<^verbatim>\<open>post\<close> adds its POST to it in the same way; \<^verbatim>\<open>__del__\<close> closes it. None of the
  three changes the address. For any client at all, a sequence of calls keeps the
  session and the address and only adds to what was sent.
\<close>

theorem one_session_and_fixed_address:
  assumes "client = calls isprintable MessageToDict (fst (init fresh address)) cs"
  shows
    "snd (init fresh address) = Suc fresh
     \<and> session_id (session (fst (init fresh address))) = fresh
     \<and> rest_address (fst (init fresh address)) = address
     \<and> session_id (session client) = fresh
     \<and> rest_address client = address
     \<and> (get_url isprintable MessageToDict client url_base_path request used_params = Inr url
          \<longrightarrow> session (snd (get isprintable MessageToDict http client url_base_path request
                              used_params))
              = (session client)\<lparr>sent := sent (session client)
                  @ [\<lparr>req_method = GET, req_url = url, req_json = None,
                      req_headers = []\<rparr>]\<rparr>)
     \<and> (get_url isprintable MessageToDict client url_base_path request used_params = Inl e
          \<longrightarrow> session (snd (get isprintable MessageToDict http client url_base_path request
                              used_params))
              = session client)
     \<and> session (snd (post isprintable MessageToDict http client url_base_path req))
         = (session client)\<lparr>sent := sent (session client)
             @ [\<lparr>req_method = POST, req_url = address @ url_base_path,
                 req_json = Some (MessageToDict req), req_headers = post_headers\<rparr>]\<rparr>
     \<and> session (del client) = (session client)\<lparr>closed := True\<rparr>
     \<and> rest_address (snd (get isprintable MessageToDict http client url_base_path request
                             used_params)) = address
     \<and> rest_address (snd (post isprintable MessageToDict http client url_base_path req))
         = address
     \<and> rest_address (del client) = address
     \<and> session_id (session (calls isprintable MessageToDict self cs))
         = session_id (session self)
     \<and> rest_address (calls isprintable MessageToDict self cs) = rest_address self
     \<and> prefix (sent (session self))
           (sent (session (calls isprintable MessageToDict self cs)))"
proof -
  have i: "snd (init fresh address) = Suc fresh"
    "session_id (session (fst (init fresh address))) = fresh"
    "rest_address (fst (init fresh address)) = address"
    by (simp_all add: init_def requests_session_def)
  from i assms calls_invariant [of isprintable MessageToDict "fst (init fresh address)" cs]
  have c: "session_id (session client) = fresh" "rest_address client = address"
    by simp_all
  have g1: "get_url isprintable MessageToDict client url_base_path request used_params
        = Inr url
      \<longrightarrow> session (snd (get isprintable MessageToDict http client url_base_path request
                          used_params))
          = (session client)\<lparr>sent := sent (session client)
              @ [\<lparr>req_method = GET, req_url = url, req_json = None,
                  req_headers = []\<rparr>]\<rparr>"
    by (simp add: get_sends)
  have g2: "get_url isprintable MessageToDict client url_base_path request used_params
        = Inl e
      \<longrightarrow> session (snd (get isprintable MessageToDict http client url_base_path request
                          used_params))
          = session client"
    by (simp add: get_raises_before_sending)
  have p: "session (snd (post isprintable MessageToDict http client url_base_path req))
         = (session client)\<lparr>sent := sent (session client)
             @ [\<lparr>req_method = POST, req_url = address @ url_base_path,
                 req_json = Some (MessageToDict req), req_headers = post_headers\<rparr>]\<rparr>"
    by (simp add: post_sends c)
  have d: "session (del client) = (session client)\<lparr>closed := True\<rparr>"
    by (simp add: del_def session_close_def)
  have a1: "rest_address (snd (get isprintable MessageToDict http client url_base_path request
                             used_params)) = address"
    by (cases "get_url isprintable MessageToDict client url_base_path request used_params")
      (simp_all add: get_raises_before_sending get_sends c)
  have a2: "rest_address (snd (post isprintable MessageToDict http client url_base_path req))
         = address"
    by (simp add: post_sends c)
  have a3: "rest_address (del client) = address"
    by (simp add: del_def c)
  from i c g1 g2 p d a1 a2 a3 calls_invariant [of isprintable MessageToDict self cs]
  show ?thesis by blast
qed

text \<open>
  A client that has made a GET and a POST: both are on the session numbered 0 that
  \<^verbatim>\<open>__init__\<close> created, a third call adds its request to the same session, and a
  \<^verbatim>\<open>get\<close> that raises \<^verbatim>\<open>KeyError\<close> leaves the session as it was.
\<close>

theorem one_session_and_fixed_address_witness:
  "calls ascii_table id (fst (init 0 ''http://localhost:1317''))
       [CallGet (answer 200 ''{}'') ''/blocks/latest'' None None,
        CallPost (answer 200 ''{}'') ''/cosmos/tx/v1beta1/txs'' tx_request]
     = \<lparr>session =
          \<lparr>session_id = 0,
             sent =
               [\<lparr>req_method = GET, req_url = ''http://localhost:1317/blocks/latest'',
                   req_json = None, req_headers = []\<rparr>,
                \<lparr>req_method = POST, req_url = ''http://localhost:1317/cosmos/tx/v1beta1/txs'',
                   req_json = Some tx_request, req_headers = post_headers\<rparr>],
             closed = False\<rparr>,
        rest_address = ''http://localhost:1317''\<rparr>
   \<and> session (snd (get ascii_table id (answer 404 ''not found'')
          (calls ascii_table id (fst (init 0 ''http://localhost:1317''))
             [CallGet (answer 200 ''{}'') ''/blocks/latest'' None None,
              CallPost (answer 200 ''{}'') ''/cosmos/tx/v1beta1/txs'' tx_request])
          ''/things/7'' (Some tags_request) (Some [''id''])))
     = \<lparr>session_id = 0,
          sent =
            [\<lparr>req_method = GET, req_url = ''http://localhost:1317/blocks/latest'',
                req_json = None, req_headers = []\<rparr>,
             \<lparr>req_method = POST, req_url = ''http://localhost:1317/cosmos/tx/v1beta1/txs'',
                req_json = Some tx_request, req_headers = post_headers\<rparr>,
             \<lparr>req_method = GET, req_url = ''http://localhost:1317/things/7?tags=a&tags=b'',
                req_json = None, req_headers = []\<rparr>],
          closed = False\<rparr>
   \<and> session (snd (get ascii_table id (answer 200 ''{}'')
          (calls ascii_table id (fst (init 0 ''http://localhost:1317''))
             [CallGet (answer 200 ''{}'') ''/blocks/latest'' None None,
              CallPost (answer 200 ''{}'') ''/cosmos/tx/v1beta1/txs'' tx_request])
          ''/things/7'' (Some tags_request) (Some [''height''])))
     = \<lparr>session_id = 0,
          sent =
            [\<lparr>req_method = GET, req_url = ''http://localhost:1317/blocks/latest'',
                req_json = None, req_headers = []\<rparr>,
             \<lparr>req_method = POST, req_url = ''http://localhost:1317/cosmos/tx/v1beta1/txs'',
                req_json = Some tx_request, req_headers = post_headers\<rparr>],
          closed = False\<rparr>"
proof -
  let ?cs = "[CallGet (answer 200 ''{}'') ''/blocks/latest'' None None,
              CallPost (answer 200 ''{}'') ''/cosmos/tx/v1beta1/txs'' tx_request]"
  let ?c = "calls ascii_table id (fst (init 0 ''http://localhost:1317'')) ?cs"
  let ?s = "\<lparr>session_id = 0,
             sent =
               [\<lparr>req_method = GET, req_url = ''http://localhost:1317/blocks/latest'',
                   req_json = None, req_headers = []\<rparr>,
                \<lparr>req_method = POST, req_url = ''http://localhost:1317/cosmos/tx/v1beta1/txs'',
                   req_json = Some tx_request, req_headers = post_headers\<rparr>],
             closed = False\<rparr>"
  have v: "?c = \<lparr>session = ?s, rest_address = ''http://localhost:1317''\<rparr>"
    by code_simp
  have u1: "get_url ascii_table id ?c ''/things/7'' (Some tags_request) (Some [''id''])
      = Inr ''http://localhost:1317/things/7?tags=a&tags=b''"
    by code_simp
  have u2: "get_url ascii_table id ?c ''/things/7'' (Some tags_request) (Some [''height''])
      = Inl (KeyError ''height'')"
    by code_simp
  from one_session_and_fixed_address [OF refl, where isprintable = ascii_table
      and MessageToDict = id and fresh = 0 and address = "''http://localhost:1317''"
      and cs = ?cs and url_base_path = "''/things/7''" and request = "Some tags_request"
      and used_params = "Some [''id'']"
      and url = "''http://localhost:1317/things/7?tags=a&tags=b''"
      and http = "answer 404 ''not found''"] u1
  have 1: "session (snd (get ascii_table id (answer 404 ''not found'') ?c ''/things/7''
                          (Some tags_request) (Some [''id''])))
      = (session ?c)\<lparr>sent := sent (session ?c)
          @ [\<lparr>req_method = GET, req_url = ''http://localhost:1317/things/7?tags=a&tags=b'',
              req_json = None, req_headers = []\<rparr>]\<rparr>"
    by blast
  from one_session_and_fixed_address [OF refl, where isprintable = ascii_table
      and MessageToDict = id and fresh = 0 and address = "''http://localhost:1317''"
      and cs = ?cs and url_base_path = "''/things/7''" and request = "Some tags_request"
      and used_params = "Some [''height'']" and e = "KeyError ''height''"
      and http = "answer 200 ''{}''"] u2
  have 2: "session (snd (get ascii_table id (answer 200 ''{}'') ?c ''/things/7''
                          (Some tags_request) (Some [''height''])))
      = session ?c"
    by blast
  from v 1 2 show ?thesis by simp
qed

end
